theory Spec2Isabelle
  imports Complex_Main "HOL-Library.Word"
begin

unbundle bit_operations_syntax

section \<open>Values shared by both programs\<close>

text \<open>
  The repository holds two programs: a passive listener that decodes BLE advertisements
  (\<^verbatim>\<open>processAdvLYWSD03MMC\<close>, \<^verbatim>\<open>processAdvLYWSDCGQ\<close>, \<^verbatim>\<open>sensor.processAdv\<close>,
  \<^verbatim>\<open>sensor.flush\<close>, \<^verbatim>\<open>advHandler\<close>, \<^verbatim>\<open>advFilter\<close>, the flush ticker of \<^verbatim>\<open>main\<close>)
  and an active poller (\<^verbatim>\<open>Sensor.readBatteryLevel\<close>,
  \<^verbatim>\<open>Sensor.readTemperatureAndHumidity\<close>, \<^verbatim>\<open>Sensor.poll\<close>).

  A Go run-time panic is a value of the model, and so is a returned \<^verbatim>\<open>error\<close>, by its
  message. A \<^verbatim>\<open>float64\<close> is
  modelled by the real number it stands for: the conversions \<^verbatim>\<open>float64(int16(..))\<close> and
  \<^verbatim>\<open>float64(uint16)\<close> are exact, the rounding of the quotient by 10 or 100 to the nearest
  \<^verbatim>\<open>float64\<close> is not modelled.
\<close>

type_synonym byte = "8 word"

datatype panic =
    IndexOutOfRange
  | SliceBoundsOutOfRange
  | NilDereference
  | NilTypeAssertion

text \<open>\<^verbatim>\<open>type Data map[string]interface{}\<close>: the values stored are \<^verbatim>\<open>float64\<close> or \<^verbatim>\<open>int\<close>.\<close>

datatype val = VFloat real | VInt int

type_synonym Data = "string \<rightharpoonup> val"

section \<open>Go byte slices\<close>

text \<open>
  A \<^verbatim>\<open>[]byte\<close> has a length and a capacity. \<open>elems\<close> holds the \<^verbatim>\<open>len(b)\<close> visible bytes,
  \<open>spare\<close> the bytes of the backing array between \<^verbatim>\<open>len(b)\<close> and \<^verbatim>\<open>cap(b)\<close>. Indexing
  \<^verbatim>\<open>b[i]\<close> panics unless \<^verbatim>\<open>i < len(b)\<close>; slicing \<^verbatim>\<open>b[lo:hi]\<close> panics unless
  \<^verbatim>\<open>lo <= hi <= cap(b)\<close>, so it can reach bytes beyond the length.
\<close>

record goslice =
  elems :: "byte list"
  spare :: "byte list"

definition bytes :: "byte list \<Rightarrow> goslice" where
  "bytes xs = \<lparr>elems = xs, spare = []\<rparr>"

definition len :: "goslice \<Rightarrow> nat" where
  "len b = length (elems b)"

definition cap :: "goslice \<Rightarrow> nat" where
  "cap b = length (elems b) + length (spare b)"

definition index :: "goslice \<Rightarrow> nat \<Rightarrow> panic + byte" where
  "index b i = (if i < len b then Inr (elems b ! i) else Inl IndexOutOfRange)"

definition reslice :: "goslice \<Rightarrow> nat \<Rightarrow> nat \<Rightarrow> panic + goslice" where
  "reslice b lo hi =
     (if lo \<le> hi \<and> hi \<le> cap b
      then Inr \<lparr>elems = take (hi - lo) (drop lo (elems b @ spare b)),
                spare = drop hi (elems b @ spare b)\<rparr>
      else Inl SliceBoundsOutOfRange)"

text \<open>
  \<^verbatim>\<open>binary.LittleEndian.Uint16(b)\<close> of the standard library:
  \<^verbatim>\<open>_ = b[1]; return uint16(b[0]) | uint16(b[1])<<8\<close>.
\<close>

definition LittleEndian_Uint16 :: "goslice \<Rightarrow> panic + 16 word" where
  "LittleEndian_Uint16 b =
     (case index b 1 of
        Inl p \<Rightarrow> Inl p
      | Inr b1 \<Rightarrow>
          (case index b 0 of
             Inl p \<Rightarrow> Inl p
           | Inr b0 \<Rightarrow> Inr (ucast b0 OR push_bit 8 (ucast b1))))"

text \<open>The expression \<^verbatim>\<open>binary.LittleEndian.Uint16(b[lo:hi])\<close>.\<close>

definition uint16_at :: "goslice \<Rightarrow> nat \<Rightarrow> nat \<Rightarrow> panic + 16 word" where
  "uint16_at b lo hi =
     (case reslice b lo hi of Inl p \<Rightarrow> Inl p | Inr s \<Rightarrow> LittleEndian_Uint16 s)"

section \<open>Payload decoders\<close>

definition processAdvLYWSD03MMC :: "goslice \<Rightarrow> panic + Data" where
  "processAdvLYWSD03MMC b =
     (if len b = 15 then
        (case uint16_at b 6 8 of
           Inl p \<Rightarrow> Inl p
         | Inr t \<Rightarrow>
             (case uint16_at b 8 10 of
                Inl p \<Rightarrow> Inl p
              | Inr h \<Rightarrow>
                  (case index b 12 of
                     Inl p \<Rightarrow> Inl p
                   | Inr pct \<Rightarrow>
                       Inr [''temperature'' \<mapsto> VFloat (real_of_int (sint t) / 100),
                            ''humidity'' \<mapsto> VFloat (real_of_int (uint h) / 100),
                            ''battery_pct'' \<mapsto> VInt (uint pct)])))
      else Inr Map.empty)"

definition processAdvLYWSDCGQ :: "goslice \<Rightarrow> panic + Data" where
  "processAdvLYWSDCGQ b =
     (case index b 13 of
        Inl p \<Rightarrow> Inl p
      | Inr d \<Rightarrow>
          if uint d = 1 then
            (case index b 14 of
               Inl p \<Rightarrow> Inl p
             | Inr pct \<Rightarrow> Inr [''battery_pct'' \<mapsto> VInt (uint pct)])
          else if uint d = 4 then
            (case uint16_at b 14 16 of
               Inl p \<Rightarrow> Inl p
             | Inr t \<Rightarrow>
                 (case uint16_at b 16 18 of
                    Inl p \<Rightarrow> Inl p
                  | Inr h \<Rightarrow>
                      Inr [''temperature'' \<mapsto> VFloat (real_of_int (sint t) / 10),
                           ''humidity'' \<mapsto> VFloat (real_of_int (uint h) / 10)]))
          else Inr Map.empty)"

text \<open>The two bytes at \<open>i\<close> and \<open>i + 1\<close> read as a little-endian 16-bit word.\<close>

definition le16 :: "byte list \<Rightarrow> nat \<Rightarrow> 16 word" where
  "le16 xs i = ucast (xs ! i) OR push_bit 8 (ucast (xs ! Suc i))"

section \<open>The passive listener: accumulator, listener and flush ticker\<close>

text \<open>
  \<^verbatim>\<open>type sensor struct { name; data; mu; processor }\<close>. Every method takes the lock \<open>mu\<close>
  for its whole body, so each call is one atomic step on the sensor and the lock itself is
  not part of the state.
\<close>

record sensor =
  name :: string
  data :: Data
  processor :: "goslice \<Rightarrow> panic + Data"

definition newSensor :: "string \<Rightarrow> (goslice \<Rightarrow> panic + Data) \<Rightarrow> sensor" where
  "newSensor n f = \<lparr>name = n, data = Map.empty, processor = f\<rparr>"

text \<open>
  \<^verbatim>\<open>for k, v := range s.processor(b) { s.data[k] = v }\<close>: the keys of a map are distinct, so
  the result does not depend on the order of the iteration and is the overriding sum.
\<close>

definition processAdv :: "sensor \<Rightarrow> goslice \<Rightarrow> panic + sensor" where
  "processAdv s b =
     (case processor s b of
        Inl p \<Rightarrow> Inl p
      | Inr f \<Rightarrow> Inr (s\<lparr>data := data s ++ f\<rparr>))"

definition flush :: "sensor \<Rightarrow> Data \<times> sensor" where
  "flush s = (data s, s\<lparr>data := Map.empty\<rparr>)"

record ServiceData =
  UUID :: string
  Data :: goslice

record Advertisement =
  Addr :: string
  ServiceData :: "ServiceData list"

text \<open>The global \<^verbatim>\<open>sensors map[string]*sensor\<close>, keyed by the address string.\<close>

type_synonym sensors = "string \<rightharpoonup> sensor"

definition advFilter :: "sensors \<Rightarrow> Advertisement \<Rightarrow> bool" where
  "advFilter ss a = (ss (Addr a) \<noteq> None)"

text \<open>
  The loop of \<^verbatim>\<open>advHandler\<close>. The arguments of \<^verbatim>\<open>vlog\<close> are evaluated whether or not
  the log is verbose, and \<^verbatim>\<open>s.name\<close> on the nil pointer of an unknown address panics.
\<close>

fun advHandler_loop :: "sensor option \<Rightarrow> ServiceData list \<Rightarrow> panic + sensor option" where
  "advHandler_loop s [] = Inr s"
| "advHandler_loop None (sd # sds) = Inl NilDereference"
| "advHandler_loop (Some s) (sd # sds) =
     (case processAdv s (Data sd) of
        Inl p \<Rightarrow> Inl p
      | Inr s' \<Rightarrow> advHandler_loop (Some s') sds)"

definition advHandler :: "sensors \<Rightarrow> Advertisement \<Rightarrow> panic + sensors" where
  "advHandler ss a =
     (case advHandler_loop (ss (Addr a)) (ServiceData a) of
        Inl p \<Rightarrow> Inl p
      | Inr None \<Rightarrow> Inr ss
      | Inr (Some s') \<Rightarrow> Inr (ss(Addr a \<mapsto> s')))"

text \<open>
  \<^verbatim>\<open>ble.Scan(ctx, true, advHandler, advFilter)\<close>: the transport hands an advertisement to
  the handler only when the filter accepts it. \<open>Scan\<close> is the handling of one advertisement
  on its own, with no flush between two of its blocks.
\<close>

definition Scan :: "sensors \<Rightarrow> Advertisement \<Rightarrow> panic + sensors" where
  "Scan ss a = (if advFilter ss a then advHandler ss a else Inr ss)"

text \<open>
  The arguments of \<^verbatim>\<open>influxdb2.NewPoint\<close>; \<open>field_set\<close> is its argument \<^verbatim>\<open>fields\<close>.
\<close>

record Point =
  measurement :: string
  tags :: "string \<rightharpoonup> string"
  field_set :: Data
  ts :: int

text \<open>
  One tick of the flush goroutine of \<^verbatim>\<open>main\<close>:
  \<^verbatim>\<open>for _, s := range sensors { fields := s.flush(); if !dryRun && len(fields) > 0 { write } }\<close>.
  The list of addresses is the order in which the run time ranges over the map, \<open>now\<close> gives
  the reading of \<^verbatim>\<open>time.Now()\<close> taken for a device. The result holds the new state and the
  points handed to \<^verbatim>\<open>writeAPI.WritePoint\<close>, each with the address of its device.
\<close>

fun flushTick ::
  "bool \<Rightarrow> (string \<Rightarrow> int) \<Rightarrow> string list \<Rightarrow> sensors \<Rightarrow> sensors \<times> (string \<times> Point) list" where
  "flushTick dryRun now [] ss = (ss, [])"
| "flushTick dryRun now (a # as) ss =
     (case ss a of
        None \<Rightarrow> flushTick dryRun now as ss
      | Some s \<Rightarrow>
          (let (fs, s') = flush s;
               w = (if \<not> dryRun \<and> fs \<noteq> Map.empty
                    then [(a, \<lparr>measurement = ''environment'', tags = [''name'' \<mapsto> name s],
                               field_set = fs, ts = now a\<rparr>)]
                    else []);
               (ss', ws) = flushTick dryRun now as (ss(a \<mapsto> s'))
           in (ss', w @ ws)))"

section \<open>The active poller\<close>

subsection \<open>Library functions on strings\<close>

text \<open>
  A Go string is a sequence of bytes, and so is a \<^typ>\<open>string\<close>. \<^verbatim>\<open>strings.Trim(s, cutset)\<close>
  for a cut set of one-byte characters, and \<^verbatim>\<open>strings.Split(s, sep)\<close> for a separator of
  one byte: the result of splitting is never empty, and a string without the separator is
  its only piece.
\<close>

definition Trim :: "string \<Rightarrow> string \<Rightarrow> string" where
  "Trim s cutset =
     rev (dropWhile (\<lambda>c. c \<in> set cutset) (rev (dropWhile (\<lambda>c. c \<in> set cutset) s)))"

fun Split :: "string \<Rightarrow> char \<Rightarrow> string list" where
  "Split [] sep = [[]]"
| "Split (c # cs) sep =
     (if c = sep then [] # Split cs sep
      else (case Split cs sep of
              [] \<Rightarrow> [[c]]
            | piece # pieces \<Rightarrow> (c # piece) # pieces))"

text \<open>
  \<^verbatim>\<open>strconv.ParseFloat(s, 64)\<close> is a parameter of the poller's model: a function from the
  text to the error's message or to the number read. \<open>ParseFloat_decimal\<close> is what it does
  on plain decimal numerals, an optional sign and digits with at most one point; it serves
  to run the poller on concrete payloads.
\<close>

type_synonym ParseFloat = "string \<Rightarrow> string + real"

definition digit :: "char \<Rightarrow> nat option" where
  "digit c =
     (if (48::nat) \<le> of_char c \<and> (of_char c :: nat) \<le> 57 then Some (of_char c - 48) else None)"

fun digits_value :: "nat \<Rightarrow> string \<Rightarrow> nat option" where
  "digits_value acc [] = Some acc"
| "digits_value acc (c # cs) =
     (case digit c of None \<Rightarrow> None | Some d \<Rightarrow> digits_value (10 * acc + d) cs)"

definition unsigned_decimal :: "string \<Rightarrow> string + real" where
  "unsigned_decimal s =
     (let ip = takeWhile (\<lambda>c. c \<noteq> CHR ''.'') s;
          fp = drop 1 (dropWhile (\<lambda>c. c \<noteq> CHR ''.'') s)
      in if ip = [] \<and> fp = [] then Inl ''invalid syntax''
         else (case (digits_value 0 ip, digits_value 0 fp) of
                 (Some i, Some f) \<Rightarrow> Inr (real i + real f / 10 ^ length fp)
               | _ \<Rightarrow> Inl ''invalid syntax''))"

definition ParseFloat_decimal :: ParseFloat where
  "ParseFloat_decimal s =
     (case s of
        [] \<Rightarrow> Inl ''invalid syntax''
      | c # cs \<Rightarrow>
          if c = CHR ''-'' then map_sum id uminus (unsigned_decimal cs)
          else if c = CHR ''+'' then unsigned_decimal cs
          else unsigned_decimal s)"

subsection \<open>The poller\<close>

record Sensor =
  Mac :: string
  Name :: string
  Timeout :: int
  Interval :: int

record Result =
  Name :: string
  Time :: int
  Temperature :: real
  Humidity :: real
  BatteryPct :: int
  PollDuration :: int

text \<open>
  What the radio and the clock give during one call of \<^verbatim>\<open>poll\<close>: the reading of
  \<^verbatim>\<open>time.Now()\<close> at its start and the one taken when the result is built (times and
  durations in nanoseconds), the error of \<^verbatim>\<open>ble.Dial\<close> and of \<^verbatim>\<open>DiscoverProfile\<close> if
  any, whether \<^verbatim>\<open>p.Find\<close> finds each characteristic (the type assertion on its nil result
  panics), the result of \<^verbatim>\<open>ReadCharacteristic\<close>, and the notification that arrives before
  the timer of \<^verbatim>\<open>s.Timeout\<close> fires, if one does.
\<close>

record radio =
  now_start :: int
  Dial :: "string option"
  DiscoverProfile :: "string option"
  Find_battery :: bool
  ReadCharacteristic :: "string + byte list"
  Find_temperatureAndHumidity :: bool
  notification :: "string option"
  now_end :: int

text \<open>
  A Go function returning \<^verbatim>\<open>(T, error)\<close> gives a value and an optional error, or panics.
\<close>

definition readBatteryLevel :: "radio \<Rightarrow> panic + (int \<times> string option)" where
  "readBatteryLevel r =
     (if \<not> Find_battery r then Inl NilTypeAssertion
      else (case ReadCharacteristic r of
              Inl err \<Rightarrow> Inr (0, Some err)
            | Inr b \<Rightarrow>
                (case b of
                   [] \<Rightarrow> Inl IndexOutOfRange
                 | b0 # _ \<Rightarrow> Inr (uint b0, None))))"

text \<open>\<^verbatim>\<open>parts[1]\<close> and \<^verbatim>\<open>res[i] = v\<close> on the array \<^verbatim>\<open>res := [2]float64{}\<close>.\<close>

definition nth_checked :: "'a list \<Rightarrow> nat \<Rightarrow> panic + 'a" where
  "nth_checked xs i = (if i < length xs then Inr (xs ! i) else Inl IndexOutOfRange)"

definition store2 :: "real \<times> real \<Rightarrow> nat \<Rightarrow> real \<Rightarrow> panic + (real \<times> real)" where
  "store2 res i v =
     (if i = 0 then Inr (v, snd res)
      else if i = 1 then Inr (fst res, v)
      else Inl IndexOutOfRange)"

text \<open>The loop \<^verbatim>\<open>for i, pair := range pairs\<close> of \<^verbatim>\<open>readTemperatureAndHumidity\<close>.\<close>

fun parse_pairs ::
  "ParseFloat \<Rightarrow> nat \<Rightarrow> string list \<Rightarrow> real \<times> real \<Rightarrow> panic + ((real \<times> real) \<times> string option)" where
  "parse_pairs pf i [] res = Inr (res, None)"
| "parse_pairs pf i (pair # pairs) res =
     (case nth_checked (Split pair CHR ''='') 1 of
        Inl p \<Rightarrow> Inl p
      | Inr text \<Rightarrow>
          (case pf text of
             Inl err \<Rightarrow> Inr (res, Some err)
           | Inr v \<Rightarrow>
               (case store2 res i v of
                  Inl p \<Rightarrow> Inl p
                | Inr res' \<Rightarrow> parse_pairs pf (Suc i) pairs res')))"

definition readTemperatureAndHumidity ::
  "ParseFloat \<Rightarrow> radio \<Rightarrow> panic + ((real \<times> real) \<times> string option)" where
  "readTemperatureAndHumidity pf r =
     (if \<not> Find_temperatureAndHumidity r then Inl NilTypeAssertion
      else (case notification r of
              Some req \<Rightarrow> parse_pairs pf 0 (Split (Trim req [CHR 0x00]) CHR '' '') (0, 0)
            | None \<Rightarrow> Inr ((0, 0), Some ''timed out waiting for notification'')))"

text \<open>
  A call of \<^verbatim>\<open>poll\<close> sends one \<^verbatim>\<open>Result\<close> on the channel, or logs an error and returns
  without sending, or panics. The global mutex it holds from its first statement to its
  return serialises the calls and is not part of this sequential model.
\<close>

datatype poll_outcome = Sent Result | Logged string | Crashed panic

definition poll :: "ParseFloat \<Rightarrow> Sensor \<Rightarrow> radio \<Rightarrow> poll_outcome" where
  "poll pf s r =
     (case Dial r of
        Some err \<Rightarrow> Logged (''Error dialing '' @ Sensor.Name s @ '': '' @ err)
      | None \<Rightarrow>
          (case DiscoverProfile r of
             Some err \<Rightarrow> Logged err
           | None \<Rightarrow>
               (case readBatteryLevel r of
                  Inl p \<Rightarrow> Crashed p
                | Inr (pct, Some err) \<Rightarrow> Logged err
                | Inr (pct, None) \<Rightarrow>
                    (case readTemperatureAndHumidity pf r of
                       Inl p \<Rightarrow> Crashed p
                     | Inr (th, Some err) \<Rightarrow> Logged err
                     | Inr (th, None) \<Rightarrow>
                         Sent \<lparr>Name = Sensor.Name s, Time = now_start r,
                               Temperature = fst th, Humidity = snd th,
                               BatteryPct = pct,
                               PollDuration = now_end r - now_start r\<rparr>))))"

section \<open>Properties of the decoders\<close>

lemma index_in: "i < length (elems b) \<Longrightarrow> index b i = Inr (elems b ! i)"
  by (simp add: index_def len_def)

lemma uint16_at_in:
  "i + 2 \<le> length (elems b) \<Longrightarrow> uint16_at b i (i + 2) = Inr (le16 (elems b) i)"
  by (simp add: uint16_at_def reslice_def cap_def LittleEndian_Uint16_def index_def len_def
      le16_def nth_append)

lemma or_plus:
  "(ucast (a::byte) :: 16 word) OR push_bit 8 (ucast (b::byte)) = ucast a + push_bit 8 (ucast b)"
proof (rule disjunctive_add_eq_or [symmetric])
  show "(ucast a :: 16 word) AND push_bit 8 (ucast b) = 0"
    by (rule bit_eqI) (auto simp add: bit_simps dest: bit_imp_le_length)
qed

text \<open>\<open>le16\<close> is the little-endian value of the two bytes.\<close>

lemma le16_uint: "uint (le16 xs i) = uint (xs ! i) + 256 * uint (xs ! Suc i)"
proof -
  have "uint (xs ! i) < 256" and "uint (xs ! Suc i) < 256"
    using uint_bounded [of "xs ! i"] uint_bounded [of "xs ! Suc i"] by simp_all
  then show ?thesis
    unfolding le16_def or_plus
    by (simp add: uint_word_ariths push_bit_eq_mult uint_up_ucast is_up)
qed

text \<open>
  C2. On a payload of exactly 15 bytes the decoder of the LYWSD03MMC returns exactly three
  fields: the temperature is the signed little-endian 16-bit integer of bytes 6 and 7 over
  100, the humidity the unsigned little-endian 16-bit integer of bytes 8 and 9 over 100, the
  battery percentage the unsigned byte 12; bytes 0x47, 0x09 at offset 6 (the integer 0x0947)
  give the temperature 23.75. On a payload of any other length it returns the empty field
  set.
\<close>

theorem processAdvLYWSD03MMC_decodes:
  "(len b = 15 \<longrightarrow>
      processAdvLYWSD03MMC b =
        Inr [''temperature'' \<mapsto> VFloat (real_of_int (sint (le16 (elems b) 6)) / 100),
             ''humidity'' \<mapsto> VFloat (real_of_int (uint (le16 (elems b) 8)) / 100),
             ''battery_pct'' \<mapsto> VInt (uint (elems b ! 12))]) \<and>
   (len b \<noteq> 15 \<longrightarrow> processAdvLYWSD03MMC b = Inr Map.empty) \<and>
   (len b = 15 \<and> elems b ! 6 = 0x47 \<and> elems b ! 7 = 0x09 \<longrightarrow>
      (\<exists>m. processAdvLYWSD03MMC b = Inr m \<and> m ''temperature'' = Some (VFloat 23.75)))"
proof (intro conjI impI)
  assume l: "len b = 15"
  then have "length (elems b) = 15" by (simp add: len_def)
  then have t: "uint16_at b 6 8 = Inr (le16 (elems b) 6)"
    and h: "uint16_at b 8 10 = Inr (le16 (elems b) 8)"
    and p: "index b 12 = Inr (elems b ! 12)"
    using uint16_at_in [of 6 b] uint16_at_in [of 8 b] index_in [of 12 b] by simp_all
  show "processAdvLYWSD03MMC b =
        Inr [''temperature'' \<mapsto> VFloat (real_of_int (sint (le16 (elems b) 6)) / 100),
             ''humidity'' \<mapsto> VFloat (real_of_int (uint (le16 (elems b) 8)) / 100),
             ''battery_pct'' \<mapsto> VInt (uint (elems b ! 12))]"
    by (simp add: processAdvLYWSD03MMC_def l t h p)
next
  assume "len b \<noteq> 15"
  then show "processAdvLYWSD03MMC b = Inr Map.empty"
    by (simp add: processAdvLYWSD03MMC_def)
next
  assume a: "len b = 15 \<and> elems b ! 6 = 0x47 \<and> elems b ! 7 = 0x09"
  then have "length (elems b) = 15" by (simp add: len_def)
  then have t: "uint16_at b 6 8 = Inr (le16 (elems b) 6)"
    and h: "uint16_at b 8 10 = Inr (le16 (elems b) 8)"
    and p: "index b 12 = Inr (elems b ! 12)"
    using uint16_at_in [of 6 b] uint16_at_in [of 8 b] index_in [of 12 b] by simp_all
  have v: "sint (le16 (elems b) 6) = 2375"
    using a by (simp add: le16_def)
  show "\<exists>m. processAdvLYWSD03MMC b = Inr m \<and> m ''temperature'' = Some (VFloat 23.75)"
    using a by (simp add: processAdvLYWSD03MMC_def t h p v)
qed

theorem processAdvLYWSD03MMC_decodes_witness:
  "processAdvLYWSD03MMC (bytes [0, 1, 2, 3, 4, 5, 0x52, 0x08, 0xD0, 0x11, 10, 11, 88, 13, 14]) =
     Inr [''temperature'' \<mapsto> VFloat 21.3, ''humidity'' \<mapsto> VFloat 45.6,
          ''battery_pct'' \<mapsto> VInt 88] \<and>
   processAdvLYWSD03MMC (bytes [0, 1, 2, 3, 4, 5, 0x18, 0xFC, 0xD0, 0x11, 10, 11, 88, 13, 14]) =
     Inr [''temperature'' \<mapsto> VFloat (- 10), ''humidity'' \<mapsto> VFloat 45.6,
          ''battery_pct'' \<mapsto> VInt 88] \<and>
   processAdvLYWSD03MMC (bytes [0, 1, 2, 3, 4, 5, 0x52, 0x08, 0xD0, 0x11, 10, 11, 88, 13]) =
     Inr Map.empty \<and>
   (\<exists>m. processAdvLYWSD03MMC
          (bytes [0, 1, 2, 3, 4, 5, 0x47, 0x09, 0xD0, 0x11, 10, 11, 88, 13, 14]) = Inr m \<and>
        m ''temperature'' = Some (VFloat 23.75))"
  using processAdvLYWSD03MMC_decodes [of "bytes [0, 1, 2, 3, 4, 5, 0x52, 0x08, 0xD0, 0x11, 10, 11, 88, 13, 14]"]
    processAdvLYWSD03MMC_decodes [of "bytes [0, 1, 2, 3, 4, 5, 0x18, 0xFC, 0xD0, 0x11, 10, 11, 88, 13, 14]"]
    processAdvLYWSD03MMC_decodes [of "bytes [0, 1, 2, 3, 4, 5, 0x52, 0x08, 0xD0, 0x11, 10, 11, 88, 13]"]
    processAdvLYWSD03MMC_decodes [of "bytes [0, 1, 2, 3, 4, 5, 0x47, 0x09, 0xD0, 0x11, 10, 11, 88, 13, 14]"]
  by (simp add: bytes_def len_def le16_def)

text \<open>
  C6. On a payload of the LYWSDCGQ long enough to index, the byte at offset 13 selects the
  fields: with 0x01 the result is exactly the battery percentage, the unsigned byte 14; with
  0x04 it is exactly the temperature, the signed little-endian 16-bit integer of bytes 14
  and 15 over 10, and the humidity, the unsigned little-endian 16-bit integer of bytes 16
  and 17 over 10; with any other byte it is the empty field set.
\<close>

theorem processAdvLYWSDCGQ_decodes:
  "(14 \<le> len b \<and> elems b ! 13 \<noteq> 0x01 \<and> elems b ! 13 \<noteq> 0x04 \<longrightarrow>
      processAdvLYWSDCGQ b = Inr Map.empty) \<and>
   (15 \<le> len b \<and> elems b ! 13 = 0x01 \<longrightarrow>
      processAdvLYWSDCGQ b = Inr [''battery_pct'' \<mapsto> VInt (uint (elems b ! 14))]) \<and>
   (18 \<le> len b \<and> elems b ! 13 = 0x04 \<longrightarrow>
      processAdvLYWSDCGQ b =
        Inr [''temperature'' \<mapsto> VFloat (real_of_int (sint (le16 (elems b) 14)) / 10),
             ''humidity'' \<mapsto> VFloat (real_of_int (uint (le16 (elems b) 16)) / 10)])"
proof (intro conjI impI)
  assume a: "14 \<le> len b \<and> elems b ! 13 \<noteq> 0x01 \<and> elems b ! 13 \<noteq> 0x04"
  then have d: "index b 13 = Inr (elems b ! 13)"
    using index_in [of 13 b] by (simp add: len_def)
  from a have "uint (elems b ! 13) \<noteq> 1" and "uint (elems b ! 13) \<noteq> 4"
    by (simp_all add: word_uint_eq_iff)
  then show "processAdvLYWSDCGQ b = Inr Map.empty"
    by (simp add: processAdvLYWSDCGQ_def d)
next
  assume a: "15 \<le> len b \<and> elems b ! 13 = 0x01"
  then have d: "index b 13 = Inr 1" and v: "index b 14 = Inr (elems b ! 14)"
    using index_in [of 13 b] index_in [of 14 b] by (simp_all add: len_def)
  show "processAdvLYWSDCGQ b = Inr [''battery_pct'' \<mapsto> VInt (uint (elems b ! 14))]"
    by (simp add: processAdvLYWSDCGQ_def d v)
next
  assume a: "18 \<le> len b \<and> elems b ! 13 = 0x04"
  then have d: "index b 13 = Inr 4"
    and t: "uint16_at b 14 16 = Inr (le16 (elems b) 14)"
    and h: "uint16_at b 16 18 = Inr (le16 (elems b) 16)"
    using index_in [of 13 b] uint16_at_in [of 14 b] uint16_at_in [of 16 b]
    by (simp_all add: len_def)
  show "processAdvLYWSDCGQ b =
        Inr [''temperature'' \<mapsto> VFloat (real_of_int (sint (le16 (elems b) 14)) / 10),
             ''humidity'' \<mapsto> VFloat (real_of_int (uint (le16 (elems b) 16)) / 10)]"
    by (simp add: processAdvLYWSDCGQ_def d t h)
qed

theorem processAdvLYWSDCGQ_decodes_witness:
  "processAdvLYWSDCGQ (bytes [0, 1, 2, 3, 4, 5, 6, 7, 8, 9, 10, 11, 12, 0x06, 14]) = Inr Map.empty \<and>
   processAdvLYWSDCGQ (bytes [0, 1, 2, 3, 4, 5, 6, 7, 8, 9, 10, 11, 12, 0x01, 0x5A]) =
     Inr [''battery_pct'' \<mapsto> VInt 90] \<and>
   processAdvLYWSDCGQ
     (bytes [0, 1, 2, 3, 4, 5, 6, 7, 8, 9, 10, 11, 12, 0x04, 0xE7, 0xFF, 0x28, 0x02]) =
     Inr [''temperature'' \<mapsto> VFloat (- 2.5), ''humidity'' \<mapsto> VFloat 55.2]"
  using processAdvLYWSDCGQ_decodes [of "bytes [0, 1, 2, 3, 4, 5, 6, 7, 8, 9, 10, 11, 12, 0x06, 14]"]
    processAdvLYWSDCGQ_decodes [of "bytes [0, 1, 2, 3, 4, 5, 6, 7, 8, 9, 10, 11, 12, 0x01, 0x5A]"]
    processAdvLYWSDCGQ_decodes [of "bytes [0, 1, 2, 3, 4, 5, 6, 7, 8, 9, 10, 11, 12, 0x04, 0xE7, 0xFF, 0x28, 0x02]"]
  by (simp add: bytes_def len_def le16_def)

text \<open>
  C1. The decoder of the LYWSDCGQ is not total: it indexes the payload with no check of its
  length. The empty payload panics at \<^verbatim>\<open>b[13]\<close>; a payload of 14 bytes with the
  discriminator 0x01 panics at \<^verbatim>\<open>b[14]\<close>; a payload of 17 bytes with the discriminator
  0x04 panics at \<^verbatim>\<open>b[16:18]\<close> when its capacity is its length; and a payload of 14 bytes
  with the discriminator 0x04 whose backing array holds four more bytes is decoded from the
  bytes past its end.
\<close>

theorem processAdvLYWSDCGQ_short_payload:
  "processAdvLYWSDCGQ (bytes []) = Inl IndexOutOfRange \<and>
   processAdvLYWSDCGQ (bytes [0, 1, 2, 3, 4, 5, 6, 7, 8, 9, 10, 11, 12, 0x01]) =
     Inl IndexOutOfRange \<and>
   processAdvLYWSDCGQ (bytes [0, 1, 2, 3, 4, 5, 6, 7, 8, 9, 10, 11, 12, 0x04, 0xE7, 0xFF, 0x28]) =
     Inl SliceBoundsOutOfRange \<and>
   processAdvLYWSDCGQ
     \<lparr>elems = [0, 1, 2, 3, 4, 5, 6, 7, 8, 9, 10, 11, 12, 0x04], spare = [0xE7, 0xFF, 0x28, 0x02]\<rparr> =
     Inr [''temperature'' \<mapsto> VFloat (- 2.5), ''humidity'' \<mapsto> VFloat 55.2]"
  by (simp add: processAdvLYWSDCGQ_def bytes_def index_def len_def uint16_at_def reslice_def
      cap_def LittleEndian_Uint16_def)

section \<open>Properties of the accumulator\<close>

lemma flush_data: "data (snd (flush s)) = Map.empty"
  by (simp add: flush_def)

text \<open>
  C4. For every accumulator state: once it is drained, a merge of the field set \<open>F\<close> (the
  decoding of a payload by the sensor's processor) followed by a drain returns exactly
  \<open>F\<close>, and the drain right after it returns the empty set.
\<close>

theorem merge_then_drain:
  "processor s b = Inr F \<longrightarrow>
     (\<exists>s1. processAdv (snd (flush s)) b = Inr s1 \<and>
           fst (flush s1) = F \<and>
           fst (flush (snd (flush s1))) = Map.empty)"
  by (simp add: processAdv_def flush_def)

theorem merge_then_drain_witness:
  "\<exists>s1. processAdv
          (snd (flush \<lparr>name = ''kitchen'', data = [''humidity'' \<mapsto> VFloat 40],
                       processor = processAdvLYWSDCGQ\<rparr>))
          (bytes [0, 1, 2, 3, 4, 5, 6, 7, 8, 9, 10, 11, 12, 0x01, 0x5A]) = Inr s1 \<and>
        fst (flush s1) = [''battery_pct'' \<mapsto> VInt 90] \<and>
        fst (flush (snd (flush s1))) = Map.empty"
proof -
  have "processAdvLYWSDCGQ (bytes [0, 1, 2, 3, 4, 5, 6, 7, 8, 9, 10, 11, 12, 0x01, 0x5A]) =
    Inr [''battery_pct'' \<mapsto> VInt 90]"
    by (simp add: processAdvLYWSDCGQ_def bytes_def index_def len_def)
  then show ?thesis
    using merge_then_drain [of "\<lparr>name = ''kitchen'', data = [''humidity'' \<mapsto> VFloat 40],
                       processor = processAdvLYWSDCGQ\<rparr>"
        "bytes [0, 1, 2, 3, 4, 5, 6, 7, 8, 9, 10, 11, 12, 0x01, 0x5A]"
        "[''battery_pct'' \<mapsto> VInt 90]"]
    by simp
qed

subsection \<open>The flush tick\<close>

lemma flushTick_empty_silent:
  "ss a = Some s \<Longrightarrow> data s = Map.empty \<Longrightarrow>
     a \<notin> fst ` set (snd (flushTick dryRun now order ss))"
proof (induction order arbitrary: ss s)
  case Nil
  then show ?case by simp
next
  case (Cons x xs)
  show ?case
  proof (cases "ss x")
    case None
    then show ?thesis using Cons by simp
  next
    case (Some t)
    let ?ss = "ss(x \<mapsto> snd (flush t))"
    have "\<exists>s'. ?ss a = Some s' \<and> data s' = Map.empty"
      using Cons.prems by (simp add: flush_def)
    then obtain s' where "?ss a = Some s'" and "data s' = Map.empty" by blast
    then have ih: "a \<notin> fst ` set (snd (flushTick dryRun now xs ?ss))"
      by (rule Cons.IH)
    have "x = a \<Longrightarrow> fst (flush t) = Map.empty"
      using Cons.prems Some by (simp add: flush_def)
    then show ?thesis
      using Some ih by (auto simp: split_beta Let_def)
  qed
qed

lemma flushTick_nonempty:
  "(a, p) \<in> set (snd (flushTick dryRun now order ss)) \<Longrightarrow> field_set p \<noteq> Map.empty \<and> \<not> dryRun"
proof (induction order arbitrary: ss)
  case Nil
  then show ?case by simp
next
  case (Cons x xs)
  then show ?case
    by (cases "ss x") (auto simp: split_beta Let_def split: if_splits)
qed

lemma flushTick_keeps_empty:
  "ss a = Some s \<Longrightarrow> data s = Map.empty \<Longrightarrow>
     \<exists>s'. fst (flushTick dryRun now order ss) a = Some s' \<and> data s' = Map.empty"
proof (induction order arbitrary: ss s)
  case Nil
  then show ?case by simp
next
  case (Cons x xs)
  show ?case
  proof (cases "ss x")
    case None
    then show ?thesis using Cons by simp
  next
    case (Some t)
    let ?ss = "ss(x \<mapsto> snd (flush t))"
    have "\<exists>s'. ?ss a = Some s' \<and> data s' = Map.empty"
      using Cons.prems by (simp add: flush_def)
    then obtain s' where "?ss a = Some s'" and "data s' = Map.empty" by blast
    then have "\<exists>s'. fst (flushTick dryRun now xs ?ss) a = Some s' \<and> data s' = Map.empty"
      by (rule Cons.IH)
    then show ?thesis
      using Some by (simp add: split_beta Let_def)
  qed
qed

lemma flushTick_drains:
  "a \<in> set order \<Longrightarrow> ss a = Some s \<Longrightarrow>
     \<exists>s'. fst (flushTick dryRun now order ss) a = Some s' \<and> data s' = Map.empty"
proof (induction order arbitrary: ss s)
  case Nil
  then show ?case by simp
next
  case (Cons x xs)
  show ?case
  proof (cases "x = a")
    case True
    let ?ss = "ss(a \<mapsto> snd (flush s))"
    have "?ss a = Some (snd (flush s))" and "data (snd (flush s)) = Map.empty"
      by (simp_all add: flush_def)
    then have "\<exists>s'. fst (flushTick dryRun now xs ?ss) a = Some s' \<and> data s' = Map.empty"
      by (rule flushTick_keeps_empty)
    then show ?thesis
      using True Cons.prems by (simp add: split_beta Let_def)
  next
    case False
    then have in_xs: "a \<in> set xs" using Cons.prems by simp
    show ?thesis
    proof (cases "ss x")
      case None
      then show ?thesis using Cons.IH [of ss s] in_xs Cons.prems(2) by simp
    next
      case (Some t)
      have "(ss(x \<mapsto> snd (flush t))) a = Some s"
        using False Cons.prems by simp
      with in_xs
      have "\<exists>s'. fst (flushTick dryRun now xs (ss(x \<mapsto> snd (flush t)))) a = Some s' \<and>
                 data s' = Map.empty"
        by (rule Cons.IH)
      then show ?thesis
        using Some by (simp add: split_beta Let_def)
    qed
  qed
qed

text \<open>
  C5. A device whose accumulator is empty, as it is when nothing was merged since its last
  drain, drains to the empty field set, and the tick hands no point of it to the sink; in
  particular a device drained by one tick has no point in the next tick when nothing was
  merged in between. Every point a tick writes has a non-empty field set.
\<close>

theorem flushTick_suppresses_empty:
  "(ss a = Some s \<and> data s = Map.empty \<longrightarrow>
      fst (flush s) = Map.empty \<and>
      a \<notin> fst ` set (snd (flushTick dryRun now order ss))) \<and>
   (a \<in> set order0 \<and> ss0 a = Some s0 \<longrightarrow>
      a \<notin> fst ` set (snd (flushTick dryRun now order
                             (fst (flushTick dryRun0 now0 order0 ss0))))) \<and>
   (\<forall>w \<in> set (snd (flushTick dryRun now order ss)). field_set (snd w) \<noteq> Map.empty)"
proof (intro conjI impI ballI)
  assume a: "ss a = Some s \<and> data s = Map.empty"
  then show "fst (flush s) = Map.empty" by (simp add: flush_def)
  from a show "a \<notin> fst ` set (snd (flushTick dryRun now order ss))"
    using flushTick_empty_silent by blast
next
  assume "a \<in> set order0 \<and> ss0 a = Some s0"
  then obtain s' where "fst (flushTick dryRun0 now0 order0 ss0) a = Some s'"
    and "data s' = Map.empty"
    using flushTick_drains by blast
  then show "a \<notin> fst ` set (snd (flushTick dryRun now order
                             (fst (flushTick dryRun0 now0 order0 ss0))))"
    by (rule flushTick_empty_silent)
next
  fix w assume "w \<in> set (snd (flushTick dryRun now order ss))"
  then have "(fst w, snd w) \<in> set (snd (flushTick dryRun now order ss))" by simp
  then show "field_set (snd w) \<noteq> Map.empty"
    using flushTick_nonempty by blast
qed

theorem flushTick_suppresses_empty_witness:
  "fst (flush (newSensor ''kitchen'' processAdvLYWSDCGQ)) = Map.empty \<and>
   ''aa'' \<notin> fst ` set (snd (flushTick False (\<lambda>_. 1000) [''aa'', ''bb'']
      [''aa'' \<mapsto> newSensor ''kitchen'' processAdvLYWSDCGQ,
       ''bb'' \<mapsto> \<lparr>name = ''hall'', data = [''battery_pct'' \<mapsto> VInt 90],
                 processor = processAdvLYWSDCGQ\<rparr>])) \<and>
   ''bb'' \<notin> fst ` set (snd (flushTick False (\<lambda>_. 2000) [''bb'', ''aa'']
      (fst (flushTick False (\<lambda>_. 1000) [''aa'', ''bb'']
        [''aa'' \<mapsto> newSensor ''kitchen'' processAdvLYWSDCGQ,
         ''bb'' \<mapsto> \<lparr>name = ''hall'', data = [''battery_pct'' \<mapsto> VInt 90],
                   processor = processAdvLYWSDCGQ\<rparr>])))) \<and>
   snd (flushTick False (\<lambda>_. 1000) [''aa'', ''bb'']
      [''aa'' \<mapsto> newSensor ''kitchen'' processAdvLYWSDCGQ,
       ''bb'' \<mapsto> \<lparr>name = ''hall'', data = [''battery_pct'' \<mapsto> VInt 90],
                 processor = processAdvLYWSDCGQ\<rparr>]) =
     [(''bb'', \<lparr>measurement = ''environment'', tags = [''name'' \<mapsto> ''hall''],
               field_set = [''battery_pct'' \<mapsto> VInt 90], ts = 1000\<rparr>)]"
  using flushTick_suppresses_empty [where ss = "[''aa'' \<mapsto> newSensor ''kitchen'' processAdvLYWSDCGQ,
         ''bb'' \<mapsto> \<lparr>name = ''hall'', data = [''battery_pct'' \<mapsto> VInt 90],
                   processor = processAdvLYWSDCGQ\<rparr>]"
       and a = "''aa''" and s = "newSensor ''kitchen'' processAdvLYWSDCGQ"
       and dryRun = False and now = "\<lambda>_. 1000" and order = "[''aa'', ''bb'']"]
    flushTick_suppresses_empty [where a = "''bb''" and dryRun = False and now = "\<lambda>_. 2000" and order = "[''bb'', ''aa'']"
       and dryRun0 = False and now0 = "\<lambda>_. 1000" and order0 = "[''aa'', ''bb'']"
       and ss0 = "[''aa'' \<mapsto> newSensor ''kitchen'' processAdvLYWSDCGQ,
         ''bb'' \<mapsto> \<lparr>name = ''hall'', data = [''battery_pct'' \<mapsto> VInt 90],
                   processor = processAdvLYWSDCGQ\<rparr>]"
       and s0 = "\<lparr>name = ''hall'', data = [''battery_pct'' \<mapsto> VInt 90],
                   processor = processAdvLYWSDCGQ\<rparr>"]
  by (simp add: newSensor_def flush_def)

section \<open>Properties of the listener\<close>

lemma advHandler_loop_merges:
  "\<forall>sd \<in> set sds. \<not> isl (processor s (Data sd)) \<Longrightarrow>
     advHandler_loop (Some s) sds =
       Inr (Some (s\<lparr>data := foldl (\<lambda>d sd. d ++ projr (processor s (Data sd))) (data s) sds\<rparr>))"
proof (induction sds arbitrary: s)
  case Nil
  then show ?case by simp
next
  case (Cons sd sds)
  from Cons.prems obtain f where f: "processor s (Data sd) = Inr f"
    by (cases "processor s (Data sd)") auto
  let ?s = "s\<lparr>data := data s ++ f\<rparr>"
  have "\<forall>x \<in> set sds. \<not> isl (processor ?s (Data x))"
    using Cons.prems by simp
  then have "advHandler_loop (Some ?s) sds =
      Inr (Some (?s\<lparr>data := foldl (\<lambda>d sd. d ++ projr (processor ?s (Data sd))) (data ?s) sds\<rparr>))"
    by (rule Cons.IH)
  then show ?case
    by (simp add: processAdv_def f)
qed

lemma advHandler_loop_panics:
  "\<exists>sd \<in> set sds. isl (processor s (Data sd)) \<Longrightarrow> isl (advHandler_loop (Some s) sds)"
proof (induction sds arbitrary: s)
  case Nil
  then show ?case by simp
next
  case (Cons sd sds)
  show ?case
  proof (cases "processor s (Data sd)")
    case (Inl p)
    then show ?thesis by (simp add: processAdv_def)
  next
    case (Inr f)
    let ?s = "s\<lparr>data := data s ++ f\<rparr>"
    have "\<exists>x \<in> set sds. isl (processor ?s (Data x))"
      using Cons.prems Inr by auto
    then have "isl (advHandler_loop (Some ?s) sds)"
      by (rule Cons.IH)
    then show ?thesis
      by (simp add: processAdv_def Inr)
  qed
qed

text \<open>
  C8. An advertisement whose address is not a key of \<open>sensors\<close> is dropped: no payload is
  decoded (whatever the payloads are, nothing panics) and no accumulator changes. For an
  advertisement of a configured address whose blocks all decode, the device's accumulator
  ends as its data overridden by the decoding of each service-data block in turn, by that
  device's processor; the other devices are untouched. When the processor panics on one of
  the blocks, so does the listener.
\<close>

theorem Scan_filters_then_merges:
  "(ss (Addr a) = None \<longrightarrow> Scan ss a = Inr ss) \<and>
   (ss (Addr a) = Some s \<and> (\<forall>sd \<in> set (ServiceData a). \<not> isl (processor s (Data sd))) \<longrightarrow>
      Scan ss a =
        Inr (ss(Addr a \<mapsto>
          s\<lparr>data := foldl (\<lambda>d sd. d ++ projr (processor s (Data sd))) (data s)
                       (ServiceData a)\<rparr>))) \<and>
   (ss (Addr a) = Some s \<and> (\<exists>sd \<in> set (ServiceData a). isl (processor s (Data sd))) \<longrightarrow>
      isl (Scan ss a))"
proof (intro conjI impI)
  assume "ss (Addr a) = None"
  then show "Scan ss a = Inr ss"
    by (simp add: Scan_def advFilter_def)
next
  assume h: "ss (Addr a) = Some s \<and> (\<forall>sd \<in> set (ServiceData a). \<not> isl (processor s (Data sd)))"
  then have "advHandler_loop (Some s) (ServiceData a) =
       Inr (Some (s\<lparr>data := foldl (\<lambda>d sd. d ++ projr (processor s (Data sd))) (data s)
                               (ServiceData a)\<rparr>))"
    using advHandler_loop_merges by blast
  with h show "Scan ss a =
        Inr (ss(Addr a \<mapsto>
          s\<lparr>data := foldl (\<lambda>d sd. d ++ projr (processor s (Data sd))) (data s)
                       (ServiceData a)\<rparr>))"
    by (simp add: Scan_def advFilter_def advHandler_def)
next
  assume h: "ss (Addr a) = Some s \<and> (\<exists>sd \<in> set (ServiceData a). isl (processor s (Data sd)))"
  then have "isl (advHandler_loop (Some s) (ServiceData a))"
    using advHandler_loop_panics by blast
  with h show "isl (Scan ss a)"
    by (auto simp: Scan_def advFilter_def advHandler_def split: sum.splits)
qed

theorem Scan_filters_then_merges_witness:
  "Scan [''aa'' \<mapsto> newSensor ''kitchen'' processAdvLYWSDCGQ]
     \<lparr>Addr = ''zz'', ServiceData = [\<lparr>UUID = ''fe95'', Data = bytes [1, 2, 3]\<rparr>]\<rparr> =
     Inr [''aa'' \<mapsto> newSensor ''kitchen'' processAdvLYWSDCGQ] \<and>
   Scan [''aa'' \<mapsto> newSensor ''kitchen'' processAdvLYWSDCGQ]
     \<lparr>Addr = ''aa'', ServiceData =
        [\<lparr>UUID = ''fe95'', Data = bytes [0, 1, 2, 3, 4, 5, 6, 7, 8, 9, 10, 11, 12, 0x01, 0x5A]\<rparr>,
         \<lparr>UUID = ''fe95'', Data = bytes [0, 1, 2, 3, 4, 5, 6, 7, 8, 9, 10, 11, 12, 0x04,
                                       0xE7, 0xFF, 0x28, 0x02]\<rparr>]\<rparr> =
     Inr [''aa'' \<mapsto> \<lparr>name = ''kitchen'',
                    data = [''battery_pct'' \<mapsto> VInt 90, ''temperature'' \<mapsto> VFloat (- 2.5),
                            ''humidity'' \<mapsto> VFloat 55.2],
                    processor = processAdvLYWSDCGQ\<rparr>] \<and>
   isl (Scan [''aa'' \<mapsto> newSensor ''kitchen'' processAdvLYWSDCGQ]
     \<lparr>Addr = ''aa'', ServiceData = [\<lparr>UUID = ''fe95'', Data = bytes [1, 2, 3]\<rparr>]\<rparr>)"
proof -
  have d1: "processAdvLYWSDCGQ (bytes [0, 1, 2, 3, 4, 5, 6, 7, 8, 9, 10, 11, 12, 0x01, 0x5A]) =
      Inr [''battery_pct'' \<mapsto> VInt 90]"
    by (simp add: processAdvLYWSDCGQ_def bytes_def index_def len_def)
  have d2: "processAdvLYWSDCGQ
      (bytes [0, 1, 2, 3, 4, 5, 6, 7, 8, 9, 10, 11, 12, 0x04, 0xE7, 0xFF, 0x28, 0x02]) =
      Inr [''temperature'' \<mapsto> VFloat (- 2.5), ''humidity'' \<mapsto> VFloat 55.2]"
    by (simp add: processAdvLYWSDCGQ_def bytes_def index_def len_def uint16_at_def reslice_def
        cap_def LittleEndian_Uint16_def)
  have d3: "processAdvLYWSDCGQ (bytes [1, 2, 3]) = Inl IndexOutOfRange"
    by (simp add: processAdvLYWSDCGQ_def bytes_def index_def len_def)
  show ?thesis
    using Scan_filters_then_merges [where ss = "[''aa'' \<mapsto> newSensor ''kitchen'' processAdvLYWSDCGQ]"
        and a = "\<lparr>Addr = ''zz'', ServiceData = [\<lparr>UUID = ''fe95'', Data = bytes [1, 2, 3]\<rparr>]\<rparr>"]
      Scan_filters_then_merges [where ss = "[''aa'' \<mapsto> newSensor ''kitchen'' processAdvLYWSDCGQ]"
        and s = "newSensor ''kitchen'' processAdvLYWSDCGQ"
        and a = "\<lparr>Addr = ''aa'', ServiceData =
        [\<lparr>UUID = ''fe95'', Data = bytes [0, 1, 2, 3, 4, 5, 6, 7, 8, 9, 10, 11, 12, 0x01, 0x5A]\<rparr>,
         \<lparr>UUID = ''fe95'', Data = bytes [0, 1, 2, 3, 4, 5, 6, 7, 8, 9, 10, 11, 12, 0x04,
                                       0xE7, 0xFF, 0x28, 0x02]\<rparr>]\<rparr>"]
      Scan_filters_then_merges [where ss = "[''aa'' \<mapsto> newSensor ''kitchen'' processAdvLYWSDCGQ]"
        and s = "newSensor ''kitchen'' processAdvLYWSDCGQ"
        and a = "\<lparr>Addr = ''aa'', ServiceData = [\<lparr>UUID = ''fe95'', Data = bytes [1, 2, 3]\<rparr>]\<rparr>"]
    by (simp add: newSensor_def d1 d2 d3 map_add_def fun_upd_def fun_eq_iff)
qed

section \<open>Properties of the active poller\<close>

subsection \<open>Splitting and trimming\<close>

lemma Split_not_Nil: "Split s sep \<noteq> []"
  by (induction s) (auto split: list.splits)

lemma Split_without_sep: "sep \<notin> set s \<Longrightarrow> Split s sep = [s]"
  by (induction s) auto

lemma Split_at_sep: "sep \<notin> set a \<Longrightarrow> Split (a @ sep # b) sep = a # Split b sep"
  by (induction a) auto

text \<open>Leading cut-set bytes of the first key are trimmed away with no effect on the values.\<close>

lemma Trim_pairs:
  assumes "c \<notin> set cutset" and "last (c # t) \<notin> set cutset"
  shows "Trim (k @ c # t) cutset = dropWhile (\<lambda>x. x \<in> set cutset) k @ c # t"
proof -
  let ?P = "\<lambda>x. x \<in> set cutset"
  let ?s = "dropWhile ?P k @ c # t"
  have l: "dropWhile ?P (k @ c # t) = ?s"
    using assms(1) by (simp add: dropWhile_append)
  have "last ?s \<notin> set cutset" using assms(2) by simp
  then have "hd (rev ?s) \<notin> set cutset" unfolding hd_rev .
  then have "dropWhile ?P (rev ?s) = rev ?s"
    by (cases "rev ?s") auto
  then have "rev (dropWhile ?P (rev ?s)) = ?s" by simp
  with l show ?thesis unfolding Trim_def by simp
qed

lemma last_of_tail: "last (xs @ c # v) \<in> insert c (set v)"
  by (cases v rule: rev_cases) auto

lemma value_field:
  "CHR ''='' \<notin> set k \<Longrightarrow> CHR ''='' \<notin> set v \<Longrightarrow>
     nth_checked (Split (k @ CHR ''='' # v) CHR ''='') 1 = Inr v"
  by (simp add: Split_at_sep Split_without_sep nth_checked_def)


subsection \<open>The parsing loop\<close>

lemma parse_pairs_bad_value:
  "\<exists>p \<in> set pairs. \<exists>v e. nth_checked (Split p CHR ''='') 1 = Inr v \<and> pf v = Inl e \<Longrightarrow>
     parse_pairs pf i pairs res \<noteq> Inr (res', None)"
proof (induction pairs arbitrary: i res)
  case Nil
  then show ?case by simp
next
  case (Cons p ps)
  show ?case
  proof (cases "nth_checked (Split p CHR ''='') 1")
    case (Inl e)
    then show ?thesis by simp
  next
    case v: (Inr v)
    show ?thesis
    proof (cases "pf v")
      case (Inl e)
      then show ?thesis using v by simp
    next
      case x: (Inr x)
      show ?thesis
      proof (cases "store2 res i x")
        case (Inl e)
        then show ?thesis using v x by simp
      next
        case (Inr r)
        have "\<exists>p \<in> set ps. \<exists>v e. nth_checked (Split p CHR ''='') 1 = Inr v \<and> pf v = Inl e"
          using Cons.prems v x by auto
        then have "parse_pairs pf (Suc i) ps r \<noteq> Inr (res', None)"
          by (rule Cons.IH)
        then show ?thesis using v x Inr by simp
      qed
    qed
  qed
qed

lemma parse_pairs_reaches_bad_value:
  "length oks + i \<le> 2 \<Longrightarrow>
   \<forall>q \<in> set oks. \<exists>v x. nth_checked (Split q CHR ''='') 1 = Inr v \<and> pf v = Inr x \<Longrightarrow>
   nth_checked (Split p CHR ''='') 1 = Inr v \<Longrightarrow> pf v = Inl e \<Longrightarrow>
     \<exists>res'. parse_pairs pf i (oks @ p # rest) res = Inr (res', Some e)"
proof (induction oks arbitrary: i res)
  case Nil
  then show ?case by simp
next
  case (Cons q qs)
  from Cons.prems(2) obtain w x where w: "nth_checked (Split q CHR ''='') 1 = Inr w"
    and x: "pf w = Inr x" by auto
  from Cons.prems(1) have "i = 0 \<or> i = 1" by auto
  then obtain r where r: "store2 res i x = Inr r"
    by (auto simp: store2_def)
  have "length qs + Suc i \<le> 2" using Cons.prems(1) by simp
  moreover have "\<forall>q \<in> set qs. \<exists>v x. nth_checked (Split q CHR ''='') 1 = Inr v \<and> pf v = Inr x"
    using Cons.prems(2) by simp
  ultimately have "\<exists>res'. parse_pairs pf (Suc i) (qs @ p # rest) r = Inr (res', Some e)"
    using Cons.prems(3,4) by (rule Cons.IH)
  then show ?case using w x r by simp
qed

lemma parse_two_pairs:
  assumes "nth_checked (Split p1 CHR ''='') 1 = Inr v1" and "pf v1 = Inr x1"
    and "nth_checked (Split p2 CHR ''='') 1 = Inr v2" and "pf v2 = Inr x2"
  shows "parse_pairs pf 0 [p1, p2] (0, 0) = Inr ((x1, x2), None)"
  using assms by (simp add: store2_def)

lemma parse_one_pair:
  assumes "nth_checked (Split p1 CHR ''='') 1 = Inr v1" and "pf v1 = Inr x1"
  shows "parse_pairs pf 0 [p1] (0, 0) = Inr ((x1, 0), None)"
  using assms by (simp add: store2_def)

lemma poll_Sent:
  "poll pf s r = Sent res \<Longrightarrow>
     \<exists>th pct. readTemperatureAndHumidity pf r = Inr (th, None) \<and>
       readBatteryLevel r = Inr (pct, None) \<and> Dial r = None \<and> DiscoverProfile r = None \<and>
       res = \<lparr>Name = Sensor.Name s, Time = now_start r, Temperature = fst th,
              Humidity = snd th, BatteryPct = pct, PollDuration = now_end r - now_start r\<rparr>"
  by (auto simp: poll_def split: option.splits sum.splits prod.splits)

text \<open>
  C3 (as amended). The record a successful call of \<^verbatim>\<open>poll\<close> sends carries as its time
  the reading of the clock taken at the start of the call, before the device is dialled;
  the time that passes until the record is built is carried apart, as the poll duration.
\<close>

theorem poll_timestamp_is_start:
  "poll pf s r = Sent res \<longrightarrow>
     Time res = now_start r \<and> PollDuration res = now_end r - now_start r"
  using poll_Sent [of pf s r res] by auto


lemmas run_poller =
  poll_def readBatteryLevel_def readTemperatureAndHumidity_def Trim_def nth_checked_def
  store2_def ParseFloat_decimal_def unsigned_decimal_def digit_def

text \<open>
  A poll that starts at 100 and builds its record at 250 sends a record whose time is 100,
  not the time of its completion.
\<close>

theorem poll_timestamp_not_completion:
  "poll ParseFloat_decimal
      \<lparr>Mac = ''a4:c1:38:00:00:01'', Name = ''kitchen'', Timeout = 5000000000,
         Interval = 60000000000\<rparr>
      \<lparr>now_start = 100, Dial = None, DiscoverProfile = None, Find_battery = True,
         ReadCharacteristic = Inr [88], Find_temperatureAndHumidity = True,
         notification = Some ''T=23.7 H=55.2'', now_end = 250\<rparr> =
    Sent \<lparr>Name = ''kitchen'', Time = 100, Temperature = 23.7, Humidity = 55.2,
            BatteryPct = 88, PollDuration = 150\<rparr>"
  by (simp add: run_poller)

theorem poll_timestamp_is_start_witness:
  "\<exists>res. poll ParseFloat_decimal
      \<lparr>Mac = ''a4:c1:38:00:00:01'', Name = ''kitchen'', Timeout = 5000000000,
         Interval = 60000000000\<rparr>
      \<lparr>now_start = 100, Dial = None, DiscoverProfile = None, Find_battery = True,
         ReadCharacteristic = Inr [88], Find_temperatureAndHumidity = True,
         notification = Some ''T=23.7 H=55.2'', now_end = 250\<rparr> = Sent res \<and>
      Time res = 100 \<and> PollDuration res = 150"
proof -
  have "poll ParseFloat_decimal
      \<lparr>Mac = ''a4:c1:38:00:00:01'', Name = ''kitchen'', Timeout = 5000000000,
         Interval = 60000000000\<rparr>
      \<lparr>now_start = 100, Dial = None, DiscoverProfile = None, Find_battery = True,
         ReadCharacteristic = Inr [88], Find_temperatureAndHumidity = True,
         notification = Some ''T=23.7 H=55.2'', now_end = 250\<rparr> =
    Sent \<lparr>Name = ''kitchen'', Time = 100, Temperature = 23.7, Humidity = 55.2,
            BatteryPct = 88, PollDuration = 150\<rparr>"
    by (simp add: run_poller)
  then show ?thesis
    using poll_timestamp_is_start [of ParseFloat_decimal
      "\<lparr>Mac = ''a4:c1:38:00:00:01'', Name = ''kitchen'', Timeout = 5000000000,
         Interval = 60000000000\<rparr>"
      "\<lparr>now_start = 100, Dial = None, DiscoverProfile = None, Find_battery = True,
         ReadCharacteristic = Inr [88], Find_temperatureAndHumidity = True,
         notification = Some ''T=23.7 H=55.2'', now_end = 250\<rparr>"
      "\<lparr>Name = ''kitchen'', Time = 100, Temperature = 23.7, Humidity = 55.2,
            BatteryPct = 88, PollDuration = 150\<rparr>"]
    by simp
qed




text \<open>
  C10 (as amended). The parser assigns the values by position and never looks at the keys:
  for every payload of one or two \<^verbatim>\<open>KEY=VALUE\<close> pairs separated by a space, whose keys
  and values are free of spaces and equals signs and whose values are numeric (and free of
  NUL bytes, which the parser trims at the end of the payload), the value of the first pair
  is the temperature and the value of the second pair the humidity, whatever the keys are;
  with one pair only, the humidity stays 0.
\<close>

theorem values_assigned_by_position:
  "Find_temperatureAndHumidity r \<and>
   (\<forall>c \<in> set (ka @ va @ kb @ vb). c \<noteq> CHR '' '' \<and> c \<noteq> CHR ''='') \<and>
   CHR 0x00 \<notin> set va \<and> CHR 0x00 \<notin> set vb \<and>
   pf va = Inr xa \<and> pf vb = Inr xb \<longrightarrow>
     (notification r = Some (ka @ ''='' @ va @ '' '' @ kb @ ''='' @ vb) \<longrightarrow>
        readTemperatureAndHumidity pf r = Inr ((xa, xb), None)) \<and>
     (notification r = Some (ka @ ''='' @ va) \<longrightarrow>
        readTemperatureAndHumidity pf r = Inr ((xa, 0), None))"
proof (intro impI conjI)
  let ?nul = "\<lambda>x. x \<in> set [CHR 0x00]"
  let ?k = "dropWhile ?nul ka"
  assume h: "Find_temperatureAndHumidity r \<and>
   (\<forall>c \<in> set (ka @ va @ kb @ vb). c \<noteq> CHR '' '' \<and> c \<noteq> CHR ''='') \<and>
   CHR 0x00 \<notin> set va \<and> CHR 0x00 \<notin> set vb \<and>
   pf va = Inr xa \<and> pf vb = Inr xb"
  then have f: "Find_temperatureAndHumidity r"
    and sp: "CHR '' '' \<notin> set ka" "CHR '' '' \<notin> set va" "CHR '' '' \<notin> set kb" "CHR '' '' \<notin> set vb"
    and eq: "CHR ''='' \<notin> set ka" "CHR ''='' \<notin> set va" "CHR ''='' \<notin> set kb" "CHR ''='' \<notin> set vb"
    and nul: "CHR 0x00 \<notin> set va" "CHR 0x00 \<notin> set vb"
    and x: "pf va = Inr xa" "pf vb = Inr xb"
    by auto
  have "set ?k \<subseteq> set ka"
    by (auto dest: set_dropWhileD)
  with sp eq have k: "CHR '' '' \<notin> set ?k" "CHR ''='' \<notin> set ?k"
    by blast+
  have p1: "nth_checked (Split (?k @ CHR ''='' # va) CHR ''='') 1 = Inr va"
    using k(2) eq(2) by (rule value_field)
  have p2: "nth_checked (Split (kb @ CHR ''='' # vb) CHR ''='') 1 = Inr vb"
    using eq(3) eq(4) by (rule value_field)
  {
    assume n: "notification r = Some (ka @ ''='' @ va @ '' '' @ kb @ ''='' @ vb)"
    have "last (CHR ''='' # va @ CHR '' '' # kb @ CHR ''='' # vb) \<in> insert CHR ''='' (set vb)"
      using last_of_tail [of "CHR ''='' # va @ CHR '' '' # kb" "CHR ''=''" vb] by simp
    with nul(2)
    have "last (CHR ''='' # va @ CHR '' '' # kb @ CHR ''='' # vb) \<notin> set [CHR 0x00]"
      by auto
    then have "Trim (ka @ CHR ''='' # va @ CHR '' '' # kb @ CHR ''='' # vb) [CHR 0x00] =
        ?k @ CHR ''='' # va @ CHR '' '' # kb @ CHR ''='' # vb"
      by (intro Trim_pairs) simp_all
    moreover have "Split ((?k @ CHR ''='' # va) @ CHR '' '' # (kb @ CHR ''='' # vb)) CHR '' '' =
        [?k @ CHR ''='' # va, kb @ CHR ''='' # vb]"
      using sp k by (subst Split_at_sep) (auto simp: Split_without_sep)
    ultimately have "Split (Trim (ka @ ''='' @ va @ '' '' @ kb @ ''='' @ vb) [CHR 0x00]) CHR '' '' =
        [?k @ CHR ''='' # va, kb @ CHR ''='' # vb]"
      by simp
    then show "readTemperatureAndHumidity pf r = Inr ((xa, xb), None)"
      using f n parse_two_pairs [where pf = pf, OF p1 x(1) p2 x(2)]
      by (simp add: readTemperatureAndHumidity_def)
  }
  {
    assume n: "notification r = Some (ka @ ''='' @ va)"
    have "last (CHR ''='' # va) \<in> insert CHR ''='' (set va)"
      using last_of_tail [of "[]" "CHR ''=''" va] by simp
    with nul(1) have "last (CHR ''='' # va) \<notin> set [CHR 0x00]"
      by auto
    then have "Trim (ka @ CHR ''='' # va) [CHR 0x00] = ?k @ CHR ''='' # va"
      by (intro Trim_pairs) simp_all
    moreover have "Split (?k @ CHR ''='' # va) CHR '' '' = [?k @ CHR ''='' # va]"
      using sp k by (auto simp: Split_without_sep)
    ultimately have "Split (Trim (ka @ ''='' @ va) [CHR 0x00]) CHR '' '' = [?k @ CHR ''='' # va]"
      by simp
    then show "readTemperatureAndHumidity pf r = Inr ((xa, 0), None)"
      using f n parse_one_pair [where pf = pf, OF p1 x(1)]
      by (simp add: readTemperatureAndHumidity_def)
  }
qed


text \<open>
  A payload of three numeric pairs yields no reading: storing the third value in the array
  of two panics.
\<close>

theorem third_pair_panics:
  "readTemperatureAndHumidity ParseFloat_decimal
      \<lparr>now_start = 100, Dial = None, DiscoverProfile = None, Find_battery = True,
         ReadCharacteristic = Inr [88], Find_temperatureAndHumidity = True,
         notification = Some ''A=1 B=2 C=3'', now_end = 250\<rparr> =
    Inl IndexOutOfRange"
  by (simp add: run_poller)

theorem values_assigned_by_position_witness:
  "readTemperatureAndHumidity ParseFloat_decimal
      \<lparr>now_start = 100, Dial = None, DiscoverProfile = None, Find_battery = True,
         ReadCharacteristic = Inr [88], Find_temperatureAndHumidity = True,
         notification = Some ''H=55.2 T=23.7'', now_end = 250\<rparr> =
     Inr ((55.2, 23.7), None) \<and>
   readTemperatureAndHumidity ParseFloat_decimal
      \<lparr>now_start = 100, Dial = None, DiscoverProfile = None, Find_battery = True,
         ReadCharacteristic = Inr [88], Find_temperatureAndHumidity = True,
         notification = Some ''=55.2 battery=23.7'', now_end = 250\<rparr> =
     Inr ((55.2, 23.7), None) \<and>
   readTemperatureAndHumidity ParseFloat_decimal
      \<lparr>now_start = 100, Dial = None, DiscoverProfile = None, Find_battery = True,
         ReadCharacteristic = Inr [88], Find_temperatureAndHumidity = True,
         notification = Some ''H=55.2'', now_end = 250\<rparr> =
     Inr ((55.2, 0), None)"
proof -
  have v: "ParseFloat_decimal ''55.2'' = Inr 55.2" "ParseFloat_decimal ''23.7'' = Inr 23.7"
    by (simp_all add: ParseFloat_decimal_def unsigned_decimal_def digit_def)
  show ?thesis
    using values_assigned_by_position [where pf = ParseFloat_decimal and ka = "''H''" and va = "''55.2''"
        and kb = "''T''" and vb = "''23.7''" and xa = "55.2" and xb = "23.7"
        and r = "\<lparr>now_start = 100, Dial = None, DiscoverProfile = None, Find_battery = True,
         ReadCharacteristic = Inr [88], Find_temperatureAndHumidity = True,
         notification = Some ''H=55.2 T=23.7'', now_end = 250\<rparr>"]
      values_assigned_by_position [where pf = ParseFloat_decimal and ka = "[]" and va = "''55.2''"
        and kb = "''battery''" and vb = "''23.7''" and xa = "55.2" and xb = "23.7"
        and r = "\<lparr>now_start = 100, Dial = None, DiscoverProfile = None, Find_battery = True,
         ReadCharacteristic = Inr [88], Find_temperatureAndHumidity = True,
         notification = Some ''=55.2 battery=23.7'', now_end = 250\<rparr>"]
      values_assigned_by_position [where pf = ParseFloat_decimal and ka = "''H''" and va = "''55.2''"
        and kb = "''T''" and vb = "''23.7''" and xa = "55.2" and xb = "23.7"
        and r = "\<lparr>now_start = 100, Dial = None, DiscoverProfile = None, Find_battery = True,
         ReadCharacteristic = Inr [88], Find_temperatureAndHumidity = True,
         notification = Some ''H=55.2'', now_end = 250\<rparr>"]
    by (simp add: v)
qed

text \<open>
  C7. The value field of a pair is \<^verbatim>\<open>parts[1]\<close>, the text between its first and its
  second equals sign. For every notification payload, when the value field of some pair
  does not parse as a number, the call of \<^verbatim>\<open>readTemperatureAndHumidity\<close> does not return
  a reading and \<^verbatim>\<open>poll\<close> sends no record: the cycle ends with the logged error of
  \<^verbatim>\<open>ParseFloat\<close> or with a run-time error. It ends with the logged error of
  \<^verbatim>\<open>ParseFloat\<close> whenever the parser reaches the field: the pairs before it, at most two,
  have value fields that parse. The payload \<^verbatim>\<open>T=23.7 H=55.2\<close> parses to the temperature
  23.7 and the humidity 55.2.
\<close>

theorem parse_failure_aborts_poll:
  "(notification r = Some req \<and> p \<in> set (Split (Trim req [CHR 0x00]) CHR '' '') \<and>
    nth_checked (Split p CHR ''='') 1 = Inr v \<and> pf v = Inl e \<longrightarrow>
      (\<forall>res. poll pf s r \<noteq> Sent res) \<and>
      (\<forall>th. readTemperatureAndHumidity pf r \<noteq> Inr (th, None))) \<and>
   (Dial r = None \<and> DiscoverProfile r = None \<and> readBatteryLevel r = Inr (pct, None) \<and>
    Find_temperatureAndHumidity r \<and> notification r = Some req \<and>
    Split (Trim req [CHR 0x00]) CHR '' '' = oks @ p # rest \<and> length oks \<le> 2 \<and>
    (\<forall>q \<in> set oks. \<exists>w x. nth_checked (Split q CHR ''='') 1 = Inr w \<and> pf w = Inr x) \<and>
    nth_checked (Split p CHR ''='') 1 = Inr v \<and> pf v = Inl e \<longrightarrow>
      poll pf s r = Logged e) \<and>
   (pf ''23.7'' = Inr 23.7 \<and> pf ''55.2'' = Inr 55.2 \<and> Find_temperatureAndHumidity r \<and>
    notification r = Some ''T=23.7 H=55.2'' \<longrightarrow>
      readTemperatureAndHumidity pf r = Inr ((23.7, 55.2), None))"
proof (intro conjI impI allI)
  assume a: "notification r = Some req \<and> p \<in> set (Split (Trim req [CHR 0x00]) CHR '' '') \<and>
    nth_checked (Split p CHR ''='') 1 = Inr v \<and> pf v = Inl e"
  then have "\<exists>p \<in> set (Split (Trim req [CHR 0x00]) CHR '' '').
      \<exists>v e. nth_checked (Split p CHR ''='') 1 = Inr v \<and> pf v = Inl e"
    by blast
  then have bad: "parse_pairs pf 0 (Split (Trim req [CHR 0x00]) CHR '' '') (0, 0) \<noteq> Inr (th, None)"
    for th
    by (rule parse_pairs_bad_value)
  show no: "readTemperatureAndHumidity pf r \<noteq> Inr (th, None)" for th
    using a bad [of th] by (simp add: readTemperatureAndHumidity_def)
  show "poll pf s r \<noteq> Sent res" for res
    using poll_Sent [of pf s r res] no by blast
next
  assume b: "Dial r = None \<and> DiscoverProfile r = None \<and> readBatteryLevel r = Inr (pct, None) \<and>
    Find_temperatureAndHumidity r \<and> notification r = Some req \<and>
    Split (Trim req [CHR 0x00]) CHR '' '' = oks @ p # rest \<and> length oks \<le> 2 \<and>
    (\<forall>q \<in> set oks. \<exists>w x. nth_checked (Split q CHR ''='') 1 = Inr w \<and> pf w = Inr x) \<and>
    nth_checked (Split p CHR ''='') 1 = Inr v \<and> pf v = Inl e"
  then have "length oks + 0 \<le> 2"
    and "\<forall>q \<in> set oks. \<exists>w x. nth_checked (Split q CHR ''='') 1 = Inr w \<and> pf w = Inr x"
    and "nth_checked (Split p CHR ''='') 1 = Inr v" and "pf v = Inl e"
    by simp_all
  then have "\<exists>res'. parse_pairs pf 0 (oks @ p # rest) (0, 0) = Inr (res', Some e)"
    by (rule parse_pairs_reaches_bad_value)
  then obtain res' where "readTemperatureAndHumidity pf r = Inr (res', Some e)"
    using b by (auto simp: readTemperatureAndHumidity_def)
  then show "poll pf s r = Logged e"
    using b by (simp add: poll_def)
next
  assume c: "pf ''23.7'' = Inr 23.7 \<and> pf ''55.2'' = Inr 55.2 \<and> Find_temperatureAndHumidity r \<and>
    notification r = Some ''T=23.7 H=55.2''"
  then show "readTemperatureAndHumidity pf r = Inr ((23.7, 55.2), None)"
    by (simp add: readTemperatureAndHumidity_def Trim_def nth_checked_def store2_def)
qed

theorem parse_failure_aborts_poll_witness:
  "poll ParseFloat_decimal
      \<lparr>Mac = ''a4:c1:38:00:00:01'', Name = ''kitchen'', Timeout = 5000000000,
         Interval = 60000000000\<rparr>
      \<lparr>now_start = 100, Dial = None, DiscoverProfile = None, Find_battery = True,
         ReadCharacteristic = Inr [88], Find_temperatureAndHumidity = True,
         notification = Some ''T=23.7 H=abc'', now_end = 250\<rparr> = Logged ''invalid syntax'' \<and>
   (\<forall>res. poll ParseFloat_decimal
      \<lparr>Mac = ''a4:c1:38:00:00:01'', Name = ''kitchen'', Timeout = 5000000000,
         Interval = 60000000000\<rparr>
      \<lparr>now_start = 100, Dial = None, DiscoverProfile = None, Find_battery = True,
         ReadCharacteristic = Inr [88], Find_temperatureAndHumidity = True,
         notification = Some ''T H=abc'', now_end = 250\<rparr> \<noteq> Sent res) \<and>
   readTemperatureAndHumidity ParseFloat_decimal
      \<lparr>now_start = 100, Dial = None, DiscoverProfile = None, Find_battery = True,
         ReadCharacteristic = Inr [88], Find_temperatureAndHumidity = True,
         notification = Some ''T=23.7 H=55.2'', now_end = 250\<rparr> = Inr ((23.7, 55.2), None)"
proof -
  let ?s = "\<lparr>Mac = ''a4:c1:38:00:00:01'', Name = ''kitchen'', Timeout = 5000000000,
         Interval = 60000000000\<rparr>"
  let ?r = "\<lambda>req. \<lparr>now_start = 100, Dial = None, DiscoverProfile = None, Find_battery = True,
         ReadCharacteristic = Inr [88], Find_temperatureAndHumidity = True,
         notification = Some req, now_end = 250\<rparr>"
  have v: "ParseFloat_decimal ''55.2'' = Inr 55.2" "ParseFloat_decimal ''23.7'' = Inr 23.7"
    "ParseFloat_decimal ''abc'' = Inl ''invalid syntax''"
    by (simp_all add: ParseFloat_decimal_def unsigned_decimal_def digit_def)
  have s1: "Split (Trim ''T=23.7 H=abc'' [CHR 0x00]) CHR '' '' = [''T=23.7''] @ ''H=abc'' # []"
    and s2: "Split (Trim ''T H=abc'' [CHR 0x00]) CHR '' '' = [''T'', ''H=abc'']"
    by (simp_all add: Trim_def)
  have f: "nth_checked (Split ''T=23.7'' CHR ''='') 1 = Inr ''23.7''"
    "nth_checked (Split ''H=abc'' CHR ''='') 1 = Inr ''abc''"
    by (simp_all add: nth_checked_def)
  have ok: "\<forall>q \<in> set [''T=23.7''].
      \<exists>w x. nth_checked (Split q CHR ''='') 1 = Inr w \<and> ParseFloat_decimal w = Inr x"
  proof
    fix q :: string
    assume "q \<in> set [''T=23.7'']"
    then have "q = ''T=23.7''" by simp
    with f(1) v(2)
    show "\<exists>w x. nth_checked (Split q CHR ''='') 1 = Inr w \<and> ParseFloat_decimal w = Inr x"
      by blast
  qed
  have b: "readBatteryLevel (?r ''T=23.7 H=abc'') = Inr (88, None)"
    by (simp add: readBatteryLevel_def)
  have "Dial (?r ''T=23.7 H=abc'') = None \<and> DiscoverProfile (?r ''T=23.7 H=abc'') = None \<and>
    readBatteryLevel (?r ''T=23.7 H=abc'') = Inr (88, None) \<and>
    Find_temperatureAndHumidity (?r ''T=23.7 H=abc'') \<and>
    notification (?r ''T=23.7 H=abc'') = Some ''T=23.7 H=abc'' \<and>
    Split (Trim ''T=23.7 H=abc'' [CHR 0x00]) CHR '' '' = [''T=23.7''] @ ''H=abc'' # [] \<and>
    length [''T=23.7''] \<le> 2 \<and>
    (\<forall>q \<in> set [''T=23.7''].
      \<exists>w x. nth_checked (Split q CHR ''='') 1 = Inr w \<and> ParseFloat_decimal w = Inr x) \<and>
    nth_checked (Split ''H=abc'' CHR ''='') 1 = Inr ''abc'' \<and>
    ParseFloat_decimal ''abc'' = Inl ''invalid syntax''"
    by (intro conjI; (rule s1 f v ok b | simp))
  then have "poll ParseFloat_decimal ?s (?r ''T=23.7 H=abc'') = Logged ''invalid syntax''"
    by (rule parse_failure_aborts_poll [where pf = ParseFloat_decimal and req = "''T=23.7 H=abc''" and p = "''H=abc''"
          and v = "''abc''" and oks = "[''T=23.7'']" and rest = "[]" and pct = 88,
          THEN conjunct2, THEN conjunct1, THEN mp])
  moreover have "\<forall>res. poll ParseFloat_decimal ?s (?r ''T H=abc'') \<noteq> Sent res"
    by (rule parse_failure_aborts_poll [where pf = ParseFloat_decimal and req = "''T H=abc''" and p = "''H=abc''"
          and v = "''abc''" and e = "''invalid syntax''",
          THEN conjunct1, THEN mp, THEN conjunct1])
      (simp add: s2 v nth_checked_def)
  moreover have "readTemperatureAndHumidity ParseFloat_decimal (?r ''T=23.7 H=55.2'') =
      Inr ((23.7, 55.2), None)"
    by (rule parse_failure_aborts_poll [where pf = ParseFloat_decimal, THEN conjunct2, THEN conjunct2, THEN mp])
      (simp add: v)
  ultimately show ?thesis by simp
qed

end
